theory Spec2Isabelle
  imports Complex_Main "HOL-Library.Sublist"
begin

text \<open>
  A shallow embedding of two parts of ReMapper: the keyframe optimizer of
  \<^verbatim>\<open>anim_optimizer.ts\<close> (the three predicate families, \<^verbatim>\<open>processPoints\<close> and
  the passes of \<^verbatim>\<open>optimizePoints\<close>) and, of \<^verbatim>\<open>light_remapper.ts\<close>, the helper
  \<^verbatim>\<open>complexifyLightIDs\<close>, the processes built on it and the two mapping solvers.
  A raise is a value \<open>Inl\<close> of a sum type, the module-level scratch arrays of the
  optimizer are passed in and returned, and every loop is a recursive function.
\<close>

section \<open>Numbers\<close>

text \<open>
  A JavaScript \<^verbatim>\<open>number\<close> is modelled as an exact real: rounding is outside the
  model, so every statement below is about the arithmetic the code asks for, not about its
  IEEE rounding. Keyframe times, keyframe values, thresholds, light ids and table entries are
  finite numbers (\<^typ>\<open>real\<close>). The optimizer can produce \<^verbatim>\<open>NaN\<close> from finite
  input in one way only: the slope computation reads \<^verbatim>\<open>values[i]\<close> past the end of
  an array, which yields \<^verbatim>\<open>undefined\<close> and turns the arithmetic into
  \<^verbatim>\<open>NaN\<close>. The scratch arrays of the slope check therefore hold \<open>jsnum\<close>s.
\<close>

datatype jsnum = Num real | NaN

fun jsub :: "jsnum \<Rightarrow> jsnum \<Rightarrow> jsnum" where
  "jsub (Num a) (Num b) = Num (a - b)"
| "jsub _ _ = NaN"

fun jmul :: "jsnum \<Rightarrow> jsnum \<Rightarrow> jsnum" where
  "jmul (Num a) (Num b) = Num (a * b)"
| "jmul _ _ = NaN"

text \<open>The one division of the optimizer (\<^verbatim>\<open>yDiff / xDiff\<close>) is guarded by
  \<^verbatim>\<open>xDiff == 0\<close>, so \<open>jdiv\<close> is never asked to divide by zero.\<close>

fun jdiv :: "jsnum \<Rightarrow> jsnum \<Rightarrow> jsnum" where
  "jdiv (Num a) (Num b) = Num (a / b)"
| "jdiv _ _ = NaN"

fun jabs :: "jsnum \<Rightarrow> jsnum" where
  "jabs (Num a) = Num \<bar>a\<bar>"
| "jabs NaN = NaN"

text \<open>\<^verbatim>\<open>x >= t\<close> and \<^verbatim>\<open>x == 0\<close>: every comparison with \<^verbatim>\<open>NaN\<close> is false.\<close>

fun jge :: "jsnum \<Rightarrow> real \<Rightarrow> bool" where
  "jge (Num a) t = (t \<le> a)"
| "jge NaN t = False"

fun jeq0 :: "jsnum \<Rightarrow> bool" where
  "jeq0 (Num a) = (a = 0)"
| "jeq0 NaN = False"

text \<open>\<^verbatim>\<open>xs[i]\<close> on an array of finite numbers, used in arithmetic: out of range it is
  \<^verbatim>\<open>undefined\<close>, which arithmetic turns into \<^verbatim>\<open>NaN\<close>.\<close>

definition js_get :: "real list \<Rightarrow> nat \<Rightarrow> jsnum" where
  "js_get xs i = (if i < length xs then Num (xs ! i) else NaN)"

text \<open>\<^verbatim>\<open>xs[i] = v\<close>: JavaScript extends the array when \<open>i\<close> is past its end (the
  holes read as \<^verbatim>\<open>undefined\<close>).\<close>

definition js_set :: "jsnum list \<Rightarrow> nat \<Rightarrow> jsnum \<Rightarrow> jsnum list" where
  "js_set xs i v =
     (if i < length xs then xs[i := v] else xs @ replicate (i - length xs) NaN @ [v])"

section \<open>Keyframes and settings (anim\_optimizer.ts)\<close>

text \<open>
  Modelled from the spec: the class \<^verbatim>\<open>Keyframe\<close> is imported from
  \<^verbatim>\<open>./animation\<close>, which is not among the sources. The optimizer reads four
  properties of it: \<^verbatim>\<open>time\<close>, \<^verbatim>\<open>values\<close>, \<^verbatim>\<open>easing\<close> and
  \<^verbatim>\<open>spline\<close> (the last two are tags that may be absent).
\<close>

record Keyframe =
  time :: real
  "values" :: "real list"
  easing :: "string option"
  spline :: "string option"

record activeSetting =
  active :: bool

record similarSetting = activeSetting +
  differenceThreshold :: real
  timeDifferenceThreshold :: real

record slopeSetting = similarSetting +
  yInterceptDifferenceThreshold :: real

text \<open>The fields carry the suffix \<open>Setting\<close> because the source uses the same three
  names for the exported predicate functions.\<close>

record OptimizeSettings =
  optimize :: bool
  optimizeDuplicatesSetting :: activeSetting
  optimizeSimilarPointsSetting :: similarSetting
  optimizeSimilarPointsSlopeSetting :: slopeSetting

definition defaultSettings :: OptimizeSettings where
  "defaultSettings =
     \<lparr> optimize = True,
       optimizeDuplicatesSetting = \<lparr> active = True \<rparr>,
       optimizeSimilarPointsSetting =
         \<lparr> active = True, differenceThreshold = 1, timeDifferenceThreshold = 3 / 100 \<rparr>,
       optimizeSimilarPointsSlopeSetting =
         \<lparr> active = True, differenceThreshold = 3 / 100, timeDifferenceThreshold = 25 / 1000,
           yInterceptDifferenceThreshold = 1 / 2 \<rparr> \<rparr>"

text \<open>The only \<^verbatim>\<open>throw\<close> of the optimizer, with the two lengths of its message.\<close>

datatype error = ArraysNotMatchingLengths nat nat

section \<open>OptimizeMath\<close>

fun identicalLoop :: "'a list \<Rightarrow> 'a list \<Rightarrow> bool" where
  "identicalLoop (x # xs) (y # ys) = (if x \<noteq> y then False else identicalLoop xs ys)"
| "identicalLoop _ _ = True"

definition areArrayElementsIdentical :: "'a list \<Rightarrow> 'a list \<Rightarrow> bool" where
  "areArrayElementsIdentical enumerable1 enumerable2 =
     (if length enumerable1 \<noteq> length enumerable2 then False
      else identicalLoop enumerable1 enumerable2)"

fun similarLoop :: "jsnum list \<Rightarrow> jsnum list \<Rightarrow> real \<Rightarrow> bool" where
  "similarLoop (x # xs) (y # ys) threshold =
     (if jge (jabs (jsub x y)) threshold then False else similarLoop xs ys threshold)"
| "similarLoop _ _ threshold = True"

definition areFloatsSimilar :: "jsnum list \<Rightarrow> jsnum list \<Rightarrow> real \<Rightarrow> error + bool" where
  "areFloatsSimilar enumerable1 enumerable2 threshold =
     (if length enumerable1 \<noteq> length enumerable2
      then Inl (ArraysNotMatchingLengths (length enumerable1) (length enumerable2))
      else Inr (similarLoop enumerable1 enumerable2 threshold))"

text \<open>\<^verbatim>\<open>&&\<close> evaluates the time test only after the value test returned, so a raise of
  the value test is the raise of the whole expression.\<close>

definition arePointSimilar :: "Keyframe \<Rightarrow> Keyframe \<Rightarrow> real \<Rightarrow> real \<Rightarrow> error + bool" where
  "arePointSimilar a b differenceThreshold' timeDifferenceThreshold' =
     (case areFloatsSimilar (map Num (values a)) (map Num (values b)) differenceThreshold' of
        Inl e \<Rightarrow> Inl e
      | Inr s \<Rightarrow> Inr (s \<and> \<bar>time a - time b\<bar> \<le> timeDifferenceThreshold'))"

definition slopeEntry :: "Keyframe \<Rightarrow> Keyframe \<Rightarrow> nat \<Rightarrow> jsnum" where
  "slopeEntry a b i =
     (let yDiff = time b - time a;
          xDiff = jsub (Num (values b ! i)) (js_get (values a) i)
      in if jeq0 xDiff \<or> yDiff = 0 then Num 0 else jdiv (Num yDiff) xDiff)"

definition SlopeOfPoint :: "Keyframe \<Rightarrow> Keyframe \<Rightarrow> jsnum list \<Rightarrow> jsnum list" where
  "SlopeOfPoint a b slopes =
     foldl (\<lambda>s i. js_set s i (slopeEntry a b i)) slopes [0 ..< length (values b)]"

definition GetYIntercept :: "Keyframe \<Rightarrow> jsnum list \<Rightarrow> jsnum list \<Rightarrow> jsnum list" where
  "GetYIntercept pointData slopeArray yIntercepts =
     foldl (\<lambda>ys i. js_set ys i
              (jsub (Num (time pointData)) (jmul (slopeArray ! i) (js_get (values pointData) i))))
       yIntercepts [0 ..< length slopeArray]"

text \<open>The four scratch arrays \<^verbatim>\<open>dummyArrays[0..3]\<close> are module state: they are never
  cleared, so a call sees what earlier calls left in them. The model passes them in and
  returns them updated.\<close>

record dummyArrays =
  middleSlope :: "jsnum list"
  endSlope :: "jsnum list"
  middleYIntercepts :: "jsnum list"
  endYIntercepts :: "jsnum list"

definition emptyDummy :: dummyArrays where
  "emptyDummy = \<lparr> middleSlope = [], endSlope = [], middleYIntercepts = [], endYIntercepts = [] \<rparr>"

record compareResult =
  similar :: bool
  skip :: bool

definition ComparePointsSlope ::
  "Keyframe \<Rightarrow> Keyframe \<Rightarrow> Keyframe \<Rightarrow> dummyArrays \<Rightarrow> real \<Rightarrow> real \<Rightarrow> real
     \<Rightarrow> error + (compareResult \<times> dummyArrays)" where
  "ComparePointsSlope startPoint middlePoint endPoint d
       timeDifferenceThreshold' differenceThreshold' yInterceptDifferenceThreshold' =
     (if \<bar>time startPoint - time endPoint\<bar> \<le> timeDifferenceThreshold' \<or>
         \<bar>time startPoint - time middlePoint\<bar> \<le> timeDifferenceThreshold' \<or>
         \<bar>time middlePoint - time endPoint\<bar> \<le> timeDifferenceThreshold'
      then Inr (\<lparr> similar = False, skip = True \<rparr>, d)
      else if easing endPoint \<noteq> easing middlePoint \<or> spline endPoint \<noteq> spline middlePoint
      then Inr (\<lparr> similar = False, skip = True \<rparr>, d)
      else
        (case (if \<bar>time endPoint - time middlePoint\<bar> > differenceThreshold'
               then areFloatsSimilar (map Num (values endPoint)) (map Num (values middlePoint))
                      differenceThreshold'
               else Inr False) of
           Inl e \<Rightarrow> Inl e
         | Inr True \<Rightarrow> Inr (\<lparr> similar = False, skip = True \<rparr>, d)
         | Inr False \<Rightarrow>
             (let endSlope' = SlopeOfPoint startPoint endPoint (endSlope d);
                  middleSlope' = SlopeOfPoint startPoint middlePoint (middleSlope d);
                  middleY = GetYIntercept middlePoint middleSlope' (middleYIntercepts d);
                  endY = GetYIntercept endPoint endSlope' (endYIntercepts d);
                  d' = \<lparr> middleSlope = middleSlope', endSlope = endSlope',
                         middleYIntercepts = middleY, endYIntercepts = endY \<rparr>
              in case areFloatsSimilar middleY endY yInterceptDifferenceThreshold' of
                   Inl e \<Rightarrow> Inl e
                 | Inr False \<Rightarrow> Inr (\<lparr> similar = False, skip = False \<rparr>, d')
                 | Inr True \<Rightarrow>
                     (case areFloatsSimilar middleSlope' endSlope' differenceThreshold' of
                        Inl e \<Rightarrow> Inl e
                      | Inr s \<Rightarrow> Inr (\<lparr> similar = s, skip = False \<rparr>, d')))))"

section \<open>The three predicate families\<close>

text \<open>Each returns the point it finds redundant, or \<open>None\<close> for \<^verbatim>\<open>undefined\<close>.\<close>

definition optimizeDuplicates :: "Keyframe \<Rightarrow> Keyframe \<Rightarrow> Keyframe option \<Rightarrow> Keyframe option" where
  "optimizeDuplicates pointA pointB pointC =
     (case pointC of
        None \<Rightarrow> (if areArrayElementsIdentical (values pointA) (values pointB)
                 then Some pointA else None)
      | Some c \<Rightarrow>
          (let middlePointUnnecessary =
                 areArrayElementsIdentical (values pointA) (values pointB) \<and>
                 areArrayElementsIdentical (values pointB) (values c)
           in if middlePointUnnecessary then Some pointB else None))"

definition optimizeSimilarPoints ::
  "Keyframe \<Rightarrow> Keyframe \<Rightarrow> Keyframe option \<Rightarrow> real \<Rightarrow> real \<Rightarrow> error + Keyframe option" where
  "optimizeSimilarPoints pointA pointB pointC differenceThreshold' timeDifferenceThreshold' =
     (if easing pointA \<noteq> easing pointB \<or> spline pointA \<noteq> spline pointB \<or>
         (case pointC of None \<Rightarrow> False
          | Some c \<Rightarrow> spline pointB \<noteq> spline c \<or> easing pointB \<noteq> easing c)
      then Inr None
      else
        (case pointC of
           None \<Rightarrow>
             (case arePointSimilar pointA pointB differenceThreshold' timeDifferenceThreshold' of
                Inl e \<Rightarrow> Inl e
              | Inr s \<Rightarrow> Inr (if s then Some pointA else None))
         | Some c \<Rightarrow>
             (case arePointSimilar pointA pointB differenceThreshold' timeDifferenceThreshold' of
                Inl e \<Rightarrow> Inl e
              | Inr False \<Rightarrow> Inr None
              | Inr True \<Rightarrow>
                  (case arePointSimilar pointB c differenceThreshold' timeDifferenceThreshold' of
                     Inl e \<Rightarrow> Inl e
                   | Inr s \<Rightarrow> Inr (if s then Some pointB else None)))))"

definition optimizeSimilarPointsSlope ::
  "Keyframe \<Rightarrow> Keyframe \<Rightarrow> Keyframe option \<Rightarrow> real \<Rightarrow> real \<Rightarrow> real \<Rightarrow> dummyArrays
     \<Rightarrow> error + (Keyframe option \<times> dummyArrays)" where
  "optimizeSimilarPointsSlope pointA pointB pointC
       differenceThreshold' timeDifferenceThreshold' yInterceptDifferenceThreshold' d =
     (case pointC of
        None \<Rightarrow> Inr (None, d)
      | Some c \<Rightarrow>
          (if easing pointA \<noteq> easing pointB \<or> spline pointA \<noteq> spline pointB \<or>
              spline pointB \<noteq> spline c \<or> easing pointB \<noteq> easing c
           then Inr (None, d)
           else
             (case ComparePointsSlope pointA pointB c d
                     timeDifferenceThreshold' differenceThreshold' yInterceptDifferenceThreshold' of
                Inl e \<Rightarrow> Inl e
              | Inr (middlePointUnnecessary, d') \<Rightarrow>
                  Inr (if similar middlePointUnnecessary then Some pointB else None, d'))))"

section \<open>optimizePoints\<close>

text \<open>
  The inner function \<^verbatim>\<open>processPoints\<close>: \<open>pointPassed\<close> starts true and is set to
  false by every active family whose predicate returns \<^verbatim>\<open>undefined\<close>. An inactive
  family is not called. The slope family is called with the thresholds of
  \<^verbatim>\<open>settings.optimizeSimilarPoints\<close> and only the y-intercept threshold of its own
  settings, as the source does.
\<close>

definition processPoints ::
  "OptimizeSettings \<Rightarrow> Keyframe \<Rightarrow> Keyframe \<Rightarrow> Keyframe option \<Rightarrow> dummyArrays
     \<Rightarrow> error + (bool \<times> dummyArrays)" where
  "processPoints settings pointA pointB pointC d =
     (let pointPassed1 =
            (if active (optimizeDuplicatesSetting settings) \<and>
                optimizeDuplicates pointA pointB pointC = None
             then False else True)
      in case (if active (optimizeSimilarPointsSetting settings)
               then (case optimizeSimilarPoints pointA pointB pointC
                             (differenceThreshold (optimizeSimilarPointsSetting settings))
                             (timeDifferenceThreshold (optimizeSimilarPointsSetting settings)) of
                       Inl e \<Rightarrow> Inl e
                     | Inr r \<Rightarrow> Inr (if r = None then False else pointPassed1))
               else Inr pointPassed1) of
           Inl e \<Rightarrow> Inl e
         | Inr pointPassed2 \<Rightarrow>
             (if active (optimizeSimilarPointsSlopeSetting settings)
              then (case optimizeSimilarPointsSlope pointA pointB pointC
                            (differenceThreshold (optimizeSimilarPointsSetting settings))
                            (timeDifferenceThreshold (optimizeSimilarPointsSetting settings))
                            (yInterceptDifferenceThreshold
                               (optimizeSimilarPointsSlopeSetting settings)) d of
                      Inl e \<Rightarrow> Inl e
                    | Inr (r, d') \<Rightarrow> Inr (if r = None then False else pointPassed2, d'))
              else Inr (pointPassed2, d)))"

text \<open>\<^verbatim>\<open>points.splice(i, 1)\<close>.\<close>

definition splice1 :: "nat \<Rightarrow> 'a list \<Rightarrow> 'a list" where
  "splice1 i points = take i points @ drop (Suc i) points"

text \<open>
  The interior loop \<^verbatim>\<open>for (let i = 1; i < points.length - 1; i++)\<close> from the index
  \<open>i\<close> on. After a \<^verbatim>\<open>splice\<close> the source decrements \<open>i\<close> and the loop header
  increments it again, so the next iteration runs at the same index. The loop starts at 1 and
  the index never decreases, so \<open>i - 1\<close> is a valid index whenever the body runs.
\<close>

function scan ::
  "OptimizeSettings \<Rightarrow> nat \<Rightarrow> Keyframe list \<Rightarrow> dummyArrays
     \<Rightarrow> error + (Keyframe list \<times> dummyArrays)" where
  "scan settings i points d =
     (if i + 1 < length points
      then (case processPoints settings (points ! (i - 1)) (points ! i)
                   (Some (points ! (i + 1))) d of
              Inl e \<Rightarrow> Inl e
            | Inr (passed, d') \<Rightarrow>
                (if \<not> passed then scan settings i (splice1 i points) d'
                 else scan settings (i + 1) points d'))
      else Inr (points, d))"
  by pat_completeness auto
termination
  by (relation "measure (\<lambda>(settings, i, points, d). 2 * length points - i)")
     (auto simp: splice1_def)

declare scan.simps [simp del]

text \<open>One pass: the two-point test, then the interior loop.\<close>

definition onePass ::
  "OptimizeSettings \<Rightarrow> Keyframe list \<Rightarrow> dummyArrays \<Rightarrow> error + (Keyframe list \<times> dummyArrays)" where
  "onePass settings points d =
     (case (if length points = 2
            then (case processPoints settings (points ! 0) (points ! 1) None d of
                    Inl e \<Rightarrow> Inl e
                  | Inr (passed, d') \<Rightarrow>
                      Inr (if \<not> passed then splice1 1 points else points, d'))
            else Inr (points, d)) of
        Inl e \<Rightarrow> Inl e
      | Inr (points', d') \<Rightarrow> scan settings 1 points' d')"

fun passesLoop ::
  "OptimizeSettings \<Rightarrow> nat \<Rightarrow> Keyframe list \<Rightarrow> dummyArrays
     \<Rightarrow> error + (Keyframe list \<times> dummyArrays)" where
  "passesLoop settings 0 points d = Inr (points, d)"
| "passesLoop settings (Suc n) points d =
     (case onePass settings points d of
        Inl e \<Rightarrow> Inl e
      | Inr (points', d') \<Rightarrow> passesLoop settings n points' d')"

text \<open>
  \<^verbatim>\<open>optimizePoints(points, settings, passes)\<close>. The result is \<open>Inl\<close> for a raise,
  \<open>Inr (None, _)\<close> for the bare \<^verbatim>\<open>return;\<close> (the caller receives
  \<^verbatim>\<open>undefined\<close>) and \<open>Inr (Some ps, _)\<close> for a returned array.
  \<^verbatim>\<open>Array.prototype.sort\<close> is stable and the comparator \<^verbatim>\<open>a.time - b.time\<close>
  orders by time, which is \<^term>\<open>sort_key time\<close>.
\<close>

definition optimizePoints ::
  "Keyframe list \<Rightarrow> OptimizeSettings \<Rightarrow> nat \<Rightarrow> dummyArrays
     \<Rightarrow> error + (Keyframe list option \<times> dummyArrays)" where
  "optimizePoints points settings passes d =
     (if optimize settings = False then Inr (Some points, d)
      else
        (let points' = sort_key time points
         in if length points' < 2 then Inr (None, d)
            else (case passesLoop settings passes points' d of
                    Inl e \<Rightarrow> Inl e
                  | Inr (r, d') \<Rightarrow> Inr (Some r, d'))))"

section \<open>Light ids and events (light\_remapper.ts)\<close>

text \<open>\<^verbatim>\<open>LightID = number | number[]\<close>.\<close>

datatype LightID = Single real | Many "real list"

text \<open>
  Modelled from the spec: \<^verbatim>\<open>EventInternals.AbstractEvent\<close> is imported from
  \<^verbatim>\<open>./event.ts\<close>, which is not among the sources. The remapper reads and writes its
  \<^verbatim>\<open>type\<close>, its optional \<^verbatim>\<open>color\<close> and its optional \<^verbatim>\<open>lightID\<close>,
  taken here as plain fields.
\<close>

record AbstractEvent =
  type :: real
  color :: "real list option"
  lightID :: "LightID option"

text \<open>The test \<^verbatim>\<open>if (x.lightID)\<close>: \<^verbatim>\<open>undefined\<close> and the number 0 are falsy, every
  array (the empty one too) is truthy.\<close>

fun truthyID :: "LightID option \<Rightarrow> bool" where
  "truthyID None = False"
| "truthyID (Some (Single n)) = (n \<noteq> 0)"
| "truthyID (Some (Many ids)) = True"

text \<open>The test \<^verbatim>\<open>if (step)\<close> on the optional parameter \<^verbatim>\<open>step?: number\<close>.\<close>

fun truthyNumber :: "real option \<Rightarrow> bool" where
  "truthyNumber None = False"
| "truthyNumber (Some n) = (n \<noteq> 0)"

text \<open>\<^verbatim>\<open>complexifyLightIDs\<close> in its two halves: the promotion of a number to a
  one-element array, and the demotion of a one-element result.\<close>

definition promote :: "LightID \<Rightarrow> real list" where
  "promote lightID' = (case lightID' of Single n \<Rightarrow> [n] | Many ids \<Rightarrow> ids)"

definition demote :: "real list \<Rightarrow> LightID" where
  "demote ids = (if length ids = 1 then Single (ids ! 0) else Many ids)"

definition complexifyLightIDs :: "LightID \<Rightarrow> (real list \<Rightarrow> real list) \<Rightarrow> LightID" where
  "complexifyLightIDs lightID' callback = demote (callback (promote lightID'))"

section \<open>The two mapping solvers\<close>

text \<open>
  A table \<^verbatim>\<open>number[][]\<close> is a list of rows \<^verbatim>\<open>[start, step]\<close>, modelled as pairs.
  \<^verbatim>\<open>solve\<close> divides by a row's step. For a step of 0 JavaScript yields an infinity or
  \<^verbatim>\<open>NaN\<close>, which the real numbers do not have, while HOL's \<open>x / 0\<close> is 0: the model
  returns \<open>None\<close> for such a quotient instead, and the result of \<open>solve\<close> is \<open>None\<close>
  exactly when the source leaves the finite numbers in this way.
\<close>

definition finiteQuotient :: "real \<Rightarrow> real \<Rightarrow> real option" where
  "finiteQuotient a b = (if b = 0 then None else Some (a / b))"

text \<open>The \<^verbatim>\<open>while (true)\<close> of \<^verbatim>\<open>solve\<close>, over the rows not yet read. Every
  iteration returns when it has read the last row, so the loop never reads past the table;
  the first equation is there for totality only.\<close>

fun solveLoop :: "real \<Rightarrow> (real \<times> real) option \<Rightarrow> real \<Rightarrow> (real \<times> real) list \<Rightarrow> real option" where
  "solveLoop output lastChange inputMapped [] = None"
| "solveLoop output lastChange inputMapped (currentChange # rest) =
     (let lastInputMapped = inputMapped;
          inputMapped' =
            (case lastChange of
               None \<Rightarrow> inputMapped + fst currentChange
             | Some l \<Rightarrow> inputMapped + snd l * (fst currentChange - fst l))
      in if inputMapped' > output
         then (case lastChange of
                 None \<Rightarrow> Some output
               | Some l \<Rightarrow> map_option (\<lambda>q. fst l + q) (finiteQuotient (output - lastInputMapped) (snd l)))
         else if length rest < 1
         then map_option (\<lambda>q. fst currentChange + q)
                (finiteQuotient (output - inputMapped') (snd currentChange))
         else solveLoop output (Some currentChange) inputMapped' rest)"

definition solve :: "real \<Rightarrow> (real \<times> real) list \<Rightarrow> real option" where
  "solve output changes = (if length changes < 1 then Some output else solveLoop output None 0 changes)"

text \<open>\<^verbatim>\<open>solveLightMap\<close> overwrites every id by its solution; the result is \<open>None\<close>
  when one of them is not a finite number.\<close>

definition solveLightMap :: "(real \<times> real) list \<Rightarrow> real list \<Rightarrow> real list option" where
  "solveLightMap map' ids = those (map (\<lambda>i. solve i map') ids)"

text \<open>The inner function \<^verbatim>\<open>apply\<close> of \<^verbatim>\<open>applyLightMap\<close> and its loop.\<close>

fun applyLoop :: "real \<Rightarrow> (real \<times> real) option \<Rightarrow> real \<Rightarrow> (real \<times> real) list \<Rightarrow> real" where
  "applyLoop input lastChange output [] = output"
| "applyLoop input lastChange output (currentChange # rest) =
     (if fst currentChange \<le> input
      then (let output' =
                  (case lastChange of
                     None \<Rightarrow> output + fst currentChange
                   | Some l \<Rightarrow> output + snd l * (fst currentChange - fst l))
            in if length rest < 1
               then output' + snd currentChange * (input - fst currentChange)
               else applyLoop input (Some currentChange) output' rest)
      else (case lastChange of
              None \<Rightarrow> input
            | Some l \<Rightarrow> output + snd l * (input - fst l)))"

definition applyChanges :: "real \<Rightarrow> (real \<times> real) list \<Rightarrow> real" where
  "applyChanges input changes =
     (if length changes < 1 then input else applyLoop input None 0 changes)"

text \<open>\<^verbatim>\<open>applyLightMap([offset, ...map], ids)\<close>: the array whose first element is the
  offset is modelled as the pair of the offset and the rows (\<^verbatim>\<open>copy\<close>, from the absent
  \<^verbatim>\<open>general.ts\<close>, copies the array before the offset is spliced off).\<close>

definition applyLightMap :: "real \<times> (real \<times> real) list \<Rightarrow> real list \<Rightarrow> real list" where
  "applyLightMap map' ids = map (\<lambda>i. applyChanges i (snd map') + fst map') ids"

section \<open>The processes of LightRemapper that go through complexifyLightIDs\<close>

text \<open>Each process is the function it registers: it takes the event and returns it as the
  process leaves it. The two normalising processes return \<open>None\<close> when \<open>solve\<close> left the
  finite numbers.\<close>

definition appendIDs :: "LightID \<Rightarrow> bool \<Rightarrow> AbstractEvent \<Rightarrow> AbstractEvent" where
  "appendIDs lightID' initialize x =
     (if \<not> truthyID (lightID x) \<and> \<not> initialize then x
      else
        (let x1 = (if \<not> truthyID (lightID x) then x\<lparr> lightID := Some (Many []) \<rparr> else x)
         in case lightID x1 of
              None \<Rightarrow> x1
            | Some l \<Rightarrow>
                x1\<lparr> lightID :=
                      Some (complexifyLightIDs l (\<lambda>ids2. ids2 @ promote lightID')) \<rparr>))"

definition normalizeWithChanges :: "(real \<times> real) list \<Rightarrow> AbstractEvent \<Rightarrow> AbstractEvent option" where
  "normalizeWithChanges map' x =
     (if truthyID (lightID x)
      then (case lightID x of
              None \<Rightarrow> Some x
            | Some l \<Rightarrow>
                map_option (\<lambda>ids. x\<lparr> lightID := Some (demote ids) \<rparr>)
                  (solveLightMap map' (promote l)))
      else Some x)"

definition normalizeLinear :: "real \<Rightarrow> real \<Rightarrow> AbstractEvent \<Rightarrow> AbstractEvent option" where
  "normalizeLinear step start x =
     (if truthyID (lightID x)
      then (case lightID x of
              None \<Rightarrow> Some x
            | Some l \<Rightarrow>
                map_option (\<lambda>ids. x\<lparr> lightID := Some (demote ids) \<rparr>)
                  (solveLightMap [(start, step)] (promote l)))
      else Some x)"

definition addToEnd :: "real \<Rightarrow> real option \<Rightarrow> AbstractEvent \<Rightarrow> AbstractEvent" where
  "addToEnd offset step x =
     (if truthyID (lightID x)
      then (case lightID x of
              None \<Rightarrow> x
            | Some l \<Rightarrow>
                x\<lparr> lightID :=
                     Some (complexifyLightIDs l
                       (map (\<lambda>i. (let i' = (if truthyNumber step
                                            then (case step of
                                                    None \<Rightarrow> i
                                                  | Some s \<Rightarrow> (i - 1) * s + 1)
                                            else i)
                                  in i' + offset)))) \<rparr>)
      else x)"

definition remapEnd :: "(real \<times> real) list \<Rightarrow> real \<Rightarrow> AbstractEvent \<Rightarrow> AbstractEvent" where
  "remapEnd map' offset x =
     (if truthyID (lightID x)
      then (case lightID x of
              None \<Rightarrow> x
            | Some l \<Rightarrow>
                x\<lparr> lightID := Some (complexifyLightIDs l (applyLightMap (offset, map'))) \<rparr>)
      else x)"

section \<open>Inputs of the scenarios\<close>

text \<open>A keyframe without easing and spline tags, as the array \<^verbatim>\<open>[...values, time]\<close>
  of the scenarios gives it.\<close>

definition plainKeyframe :: "real list \<Rightarrow> real \<Rightarrow> Keyframe" where
  "plainKeyframe vs t = \<lparr> time = t, values = vs, easing = None, spline = None \<rparr>"

text \<open>The default thresholds with only the named family active.\<close>

definition familySettings :: "bool \<Rightarrow> bool \<Rightarrow> bool \<Rightarrow> OptimizeSettings" where
  "familySettings duplicates' similar' slope' =
     \<lparr> optimize = True,
       optimizeDuplicatesSetting = \<lparr> active = duplicates' \<rparr>,
       optimizeSimilarPointsSetting =
         \<lparr> active = similar', differenceThreshold = 1, timeDifferenceThreshold = 3 / 100 \<rparr>,
       optimizeSimilarPointsSlopeSetting =
         \<lparr> active = slope', differenceThreshold = 3 / 100, timeDifferenceThreshold = 25 / 1000,
           yInterceptDifferenceThreshold = 1 / 2 \<rparr> \<rparr>"

definition onlyDuplicates :: OptimizeSettings where
  "onlyDuplicates = familySettings True False False"

definition onlySimilar :: OptimizeSettings where
  "onlySimilar = familySettings False True False"

definition onlySlope :: OptimizeSettings where
  "onlySlope = familySettings False False True"

text \<open>An event that carries nothing but the given light id.\<close>

definition eventWithID :: "LightID \<Rightarrow> AbstractEvent" where
  "eventWithID l = \<lparr> type = 0, color = None, lightID = Some l \<rparr>"

section \<open>Notions used in the statements\<close>

text \<open>The array the passes work on: the input itself when \<^verbatim>\<open>settings.optimize\<close> is
  false (the function returns before sorting), the input sorted by time otherwise.\<close>

definition workingArray :: "OptimizeSettings \<Rightarrow> Keyframe list \<Rightarrow> Keyframe list" where
  "workingArray settings points =
     (if optimize settings = False then points else sort_key time points)"

text \<open>The scratch arrays are balanced when the two slope arrays have one length and the two
  intercept arrays have one length, as they have initially (all empty).\<close>

definition balanced :: "dummyArrays \<Rightarrow> bool" where
  "balanced d =
     (length (middleSlope d) = length (endSlope d) \<and>
      length (middleYIntercepts d) = length (endYIntercepts d))"

section \<open>Helper facts about the optimizer\<close>

lemmas optimizer_defs =
  optimizePoints_def onePass_def scan.simps processPoints_def optimizeDuplicates_def
  optimizeSimilarPoints_def optimizeSimilarPointsSlope_def areArrayElementsIdentical_def
  plainKeyframe_def familySettings_def onlyDuplicates_def onlySimilar_def onlySlope_def
  defaultSettings_def splice1_def

lemma optimizePoints_short_input:
  "optimize settings \<Longrightarrow> length points < 2 \<Longrightarrow>
   optimizePoints points settings passes d = Inr (None, d)"
  by (simp add: optimizePoints_def)

section \<open>The interior scan and the two-point test\<close>

text \<open>
  C1. In the interior scan the middle point is removed if and only if every active family
  flags it, and it survives when an active family does not. The code does the opposite:
  \<open>processPoints\<close> is true exactly when every active family returned a point, and the
  scan removes the middle point when \<open>processPoints\<close> is false. With only the duplicate
  family active, three keyframes of identical values are flagged by that family, and the scan
  keeps all three; three keyframes of different values are not flagged, and the scan removes
  the middle one.
\<close>

theorem scan_keeps_flagged_point_removes_unflagged:
  "optimizeDuplicates (plainKeyframe [0, 0] 0) (plainKeyframe [0, 0] (1 / 2))
       (Some (plainKeyframe [0, 0] 1))
     = Some (plainKeyframe [0, 0] (1 / 2)) \<and>
   scan onlyDuplicates 1
       [plainKeyframe [0, 0] 0, plainKeyframe [0, 0] (1 / 2), plainKeyframe [0, 0] 1] d
     = Inr ([plainKeyframe [0, 0] 0, plainKeyframe [0, 0] (1 / 2), plainKeyframe [0, 0] 1], d) \<and>
   optimizeDuplicates (plainKeyframe [0, 0] 0) (plainKeyframe [5, 0] (1 / 2))
       (Some (plainKeyframe [9, 0] 1))
     = None \<and>
   scan onlyDuplicates 1
       [plainKeyframe [0, 0] 0, plainKeyframe [5, 0] (1 / 2), plainKeyframe [9, 0] 1] d
     = Inr ([plainKeyframe [0, 0] 0, plainKeyframe [9, 0] 1], d)"
  by (simp add: optimizer_defs)

text \<open>
  C2. For fewer than two keyframes and optimize enabled, \<open>optimizePoints\<close> returns the
  input unchanged. The code returns \<^verbatim>\<open>undefined\<close> instead (the bare
  \<^verbatim>\<open>return;\<close>), for the empty input and for a single keyframe.
\<close>

theorem optimizePoints_fewer_than_two_is_undefined:
  "optimizePoints [] defaultSettings 1 d = Inr (None, d) \<and>
   optimizePoints [plainKeyframe [0, 0] 0] defaultSettings 1 d = Inr (None, d)"
  by (simp add: optimizePoints_def defaultSettings_def)

text \<open>
  C3. With only the duplicate family active, the keyframes
  \<^verbatim>\<open>[[0,0,0],[0,0,0.5],[0,0,1]]\<close> optimize to \<^verbatim>\<open>[[0,0,0],[0,0,1]]\<close>. The code
  returns all three keyframes: the middle one is flagged as a duplicate and kept.
\<close>

theorem duplicate_scenario_keeps_middle_keyframe:
  "optimizePoints
       [plainKeyframe [0, 0] 0, plainKeyframe [0, 0] (1 / 2), plainKeyframe [0, 0] 1]
       onlyDuplicates 1 d
     = Inr (Some [plainKeyframe [0, 0] 0, plainKeyframe [0, 0] (1 / 2), plainKeyframe [0, 0] 1],
            d)"
  by (simp add: optimizer_defs)

text \<open>
  C4. With exactly two points the second is removed if an active predicate reports the pair
  redundant, and the slope predicate contributes nothing. In the code a pair of identical
  values, which the duplicate family reports redundant, keeps its second point when only that
  family is active; and the slope family, which returns \<^verbatim>\<open>undefined\<close> for every
  pair, makes the optimizer remove the second point of a pair it did not flag.
\<close>

theorem two_points_redundant_pair_kept_slope_removes:
  "optimizeDuplicates (plainKeyframe [0, 0] 0) (plainKeyframe [0, 0] 1) None
     = Some (plainKeyframe [0, 0] 0) \<and>
   optimizePoints [plainKeyframe [0, 0] 0, plainKeyframe [0, 0] 1] onlyDuplicates 1 d
     = Inr (Some [plainKeyframe [0, 0] 0, plainKeyframe [0, 0] 1], d) \<and>
   optimizeSimilarPointsSlope (plainKeyframe [0, 0] 0) (plainKeyframe [9, 0] 1) None
       1 (3 / 100) (1 / 2) d
     = Inr (None, d) \<and>
   optimizePoints [plainKeyframe [0, 0] 0, plainKeyframe [9, 0] 1] onlySlope 1 d
     = Inr (Some [plainKeyframe [0, 0] 0], d)"
  by (simp add: optimizer_defs)

theorem two_points_redundant_pair_kept_slope_removes_witness:
  "optimizePoints [plainKeyframe [0, 0] 0, plainKeyframe [0, 0] 1] onlyDuplicates 1 emptyDummy
     = Inr (Some [plainKeyframe [0, 0] 0, plainKeyframe [0, 0] 1], emptyDummy) \<and>
   optimizePoints [plainKeyframe [0, 0] 0, plainKeyframe [9, 0] 1] onlySlope 1 emptyDummy
     = Inr (Some [plainKeyframe [0, 0] 0], emptyDummy)"
  using two_points_redundant_pair_kept_slope_removes [of emptyDummy] by simp

section \<open>The similarity comparison\<close>

lemma similarLoop_Num:
  "length xs = length ys \<Longrightarrow>
   similarLoop (map Num xs) (map Num ys) t = (\<forall>i<length xs. \<bar>xs ! i - ys ! i\<bar> < t)"
proof (induction xs ys rule: list_induct2)
  case Nil
  then show ?case by simp
next
  case (Cons x xs y ys)
  then show ?case by (auto simp: less_Suc_eq_0_disj not_le)
qed

lemma arePointSimilar_eq:
  "length (values a) = length (values b) \<Longrightarrow>
   arePointSimilar a b dT tT =
     Inr ((\<forall>i<length (values a). \<bar>values a ! i - values b ! i\<bar> < dT) \<and>
          \<bar>time a - time b\<bar> \<le> tT)"
  by (simp add: arePointSimilar_def areFloatsSimilar_def similarLoop_Num)

lemma optimizeSimilarPoints_two_points:
  "easing a = easing b \<Longrightarrow> spline a = spline b \<Longrightarrow> length (values a) = length (values b) \<Longrightarrow>
   optimizeSimilarPoints a b None dT tT =
     Inr (if (\<forall>i<length (values a). \<bar>values a ! i - values b ! i\<bar> < dT) \<and>
             \<bar>time a - time b\<bar> \<le> tT
          then Some a else None)"
  by (simp add: optimizeSimilarPoints_def arePointSimilar_eq)

lemma optimizeSimilarPoints_zero_threshold:
  assumes "easing a = easing b" "spline a = spline b" "length (values a) = length (values b)"
    "values a \<noteq> []" "dT \<le> 0"
  shows "optimizeSimilarPoints a b None dT tT = Inr None"
proof -
  have "\<not> (\<forall>i<length (values a). \<bar>values a ! i - values b ! i\<bar> < dT)"
  proof
    assume h: "\<forall>i<length (values a). \<bar>values a ! i - values b ! i\<bar> < dT"
    from assms(4) have "0 < length (values a)" by simp
    with h have "\<bar>values a ! 0 - values b ! 0\<bar> < dT" by blast
    with assms(5) show False by linarith
  qed
  then show ?thesis using optimizeSimilarPoints_two_points[OF assms(1-3)] by simp
qed

text \<open>
  C6, as the code has it. For two keyframes of equal easing and spline and of one arity, the
  two-point test of the similar-points family reports the pair redundant (it returns the
  first point) exactly when every value channel differs by strictly less than
  \<open>differenceThreshold\<close> and the times differ by at most \<open>timeDifferenceThreshold\<close>: the
  time comparison is inclusive. With a \<open>differenceThreshold\<close> of 0 (or less) no two
  keyframes with at least one channel are similar.
\<close>

theorem similar_points_two_point_test:
  "easing a = easing b \<Longrightarrow> spline a = spline b \<Longrightarrow> length (values a) = length (values b) \<Longrightarrow>
   optimizeSimilarPoints a b None dT tT =
     Inr (if (\<forall>i<length (values a). \<bar>values a ! i - values b ! i\<bar> < dT) \<and>
             \<bar>time a - time b\<bar> \<le> tT
          then Some a else None) \<and>
   (values a \<noteq> [] \<and> dT \<le> 0 \<longrightarrow> optimizeSimilarPoints a b None dT tT = Inr None)"
  using optimizeSimilarPoints_two_points[of a b dT tT]
    optimizeSimilarPoints_zero_threshold[of a b dT tT]
  by blast

theorem similar_points_two_point_test_witness:
  "optimizeSimilarPoints (plainKeyframe [0, 2] 0) (plainKeyframe [1 / 4, 2] (1 / 2)) None 1 (1 / 2)
     = Inr (Some (plainKeyframe [0, 2] 0)) \<and>
   optimizeSimilarPoints (plainKeyframe [0, 2] 0) (plainKeyframe [1, 2] (1 / 2)) None 1 (1 / 2)
     = Inr None \<and>
   optimizeSimilarPoints (plainKeyframe [0, 2] 0) (plainKeyframe [0, 2] 0) None 0 1 = Inr None"
proof -
  have two: "(\<forall>i<Suc (Suc 0). P i) = (P 0 \<and> P (Suc 0))" for P :: "nat \<Rightarrow> bool"
    by (auto simp: less_Suc_eq)
  show ?thesis
    using similar_points_two_point_test
            [of "plainKeyframe [0, 2] 0" "plainKeyframe [1 / 4, 2] (1 / 2)" 1 "1 / 2"]
          similar_points_two_point_test
            [of "plainKeyframe [0, 2] 0" "plainKeyframe [1, 2] (1 / 2)" 1 "1 / 2"]
          similar_points_two_point_test
            [of "plainKeyframe [0, 2] 0" "plainKeyframe [0, 2] 0" 0 1]
    by (simp add: plainKeyframe_def two) (rule exI[of _ 0], simp)
qed

text \<open>
  C6, as the claim states it, fails: two keyframes whose times differ by exactly
  \<open>timeDifferenceThreshold\<close> (not strictly less) are reported redundant, and with a
  \<open>timeDifferenceThreshold\<close> of 0 two keyframes at the same time are still similar.
\<close>

theorem similar_points_time_threshold_is_inclusive:
  "optimizeSimilarPoints (plainKeyframe [0] 0) (plainKeyframe [0] (1 / 2)) None 1 (1 / 2)
     = Inr (Some (plainKeyframe [0] 0)) \<and>
   \<not> \<bar>time (plainKeyframe [0] 0) - time (plainKeyframe [0] (1 / 2))\<bar> < 1 / 2 \<and>
   optimizeSimilarPoints (plainKeyframe [0] 0) (plainKeyframe [1 / 2] 0) None 1 0
     = Inr (Some (plainKeyframe [0] 0))"
  by (simp add: optimizeSimilarPoints_def arePointSimilar_def areFloatsSimilar_def
      plainKeyframe_def)

text \<open>
  C7. Whenever the two compared vectors have different lengths, the similarity comparison
  \<open>areFloatsSimilar\<close> raises, whatever the threshold: nothing is compared up to the
  shorter length. So do the keyframe comparison \<open>arePointSimilar\<close> built on it, the
  similar-points check in its two-point and its three-point form (once the easing and spline
  tags agree, so that the keyframes are compared), and the slope check where it compares the
  values of the middle and the end point (the time gaps exceed the thresholds and the tags
  agree).
\<close>

theorem similarity_comparison_raises_on_length_mismatch:
  "(length xs \<noteq> length ys \<longrightarrow>
      areFloatsSimilar xs ys threshold
        = Inl (ArraysNotMatchingLengths (length xs) (length ys))) \<and>
   (length (values a) \<noteq> length (values b) \<longrightarrow>
      arePointSimilar a b dT tT
        = Inl (ArraysNotMatchingLengths (length (values a)) (length (values b)))) \<and>
   (length (values a) \<noteq> length (values b) \<and> easing a = easing b \<and> spline a = spline b \<longrightarrow>
      optimizeSimilarPoints a b None dT tT
        = Inl (ArraysNotMatchingLengths (length (values a)) (length (values b)))) \<and>
   (length (values a) \<noteq> length (values b) \<and> easing a = easing b \<and> spline a = spline b \<and>
    easing b = easing c \<and> spline b = spline c \<longrightarrow>
      optimizeSimilarPoints a b (Some c) dT tT
        = Inl (ArraysNotMatchingLengths (length (values a)) (length (values b)))) \<and>
   (length (values c) \<noteq> length (values b) \<and> easing c = easing b \<and> spline c = spline b \<and>
    tT < \<bar>time a - time c\<bar> \<and> tT < \<bar>time a - time b\<bar> \<and> tT < \<bar>time b - time c\<bar> \<and>
    dT < \<bar>time c - time b\<bar> \<longrightarrow>
      ComparePointsSlope a b c d tT dT yT
        = Inl (ArraysNotMatchingLengths (length (values c)) (length (values b))))"
  by (simp add: arePointSimilar_def areFloatsSimilar_def optimizeSimilarPoints_def
      ComparePointsSlope_def)

theorem similarity_comparison_raises_on_length_mismatch_witness:
  "areFloatsSimilar [Num 0, Num 0] [Num 0] 1000 = Inl (ArraysNotMatchingLengths 2 1) \<and>
   arePointSimilar (plainKeyframe [0, 0] 0) (plainKeyframe [0] 1) 1000 1000
     = Inl (ArraysNotMatchingLengths 2 1) \<and>
   optimizeSimilarPoints (plainKeyframe [0, 0] 0) (plainKeyframe [0] 1) None 1000 1000
     = Inl (ArraysNotMatchingLengths 2 1) \<and>
   optimizeSimilarPoints (plainKeyframe [0, 0] 0) (plainKeyframe [0] 1)
       (Some (plainKeyframe [0, 0, 0] 2)) 1000 1000
     = Inl (ArraysNotMatchingLengths 2 1) \<and>
   ComparePointsSlope (plainKeyframe [0, 0] 0) (plainKeyframe [0] 1) (plainKeyframe [0, 0, 0] 2)
       emptyDummy (1 / 2) (1 / 2) 1000
     = Inl (ArraysNotMatchingLengths 3 1)"
  using similarity_comparison_raises_on_length_mismatch
          [of "[Num 0, Num 0]" "[Num 0]" 1000 "plainKeyframe [0, 0] 0" "plainKeyframe [0] 1"
              1000 1000 "plainKeyframe [0, 0, 0] 2"]
        similarity_comparison_raises_on_length_mismatch
          [of "[Num 0, Num 0]" "[Num 0]" 1000 "plainKeyframe [0, 0] 0" "plainKeyframe [0] 1"
              "1 / 2" "1 / 2" "plainKeyframe [0, 0, 0] 2" emptyDummy 1000]
  by (simp add: plainKeyframe_def)

section \<open>The optimizer only removes points\<close>

lemma subseq_splice1: "subseq (splice1 i ps) ps"
proof -
  have "subseq (take i ps @ drop (Suc i) ps) (take i ps @ drop i ps)"
    by (intro list_emb_append_mono subseq_order.order_refl suffix_imp_subseq)
       (metis drop_Suc drop_drop plus_1_eq_Suc suffix_drop)
  then show ?thesis by (simp add: splice1_def)
qed

lemma scan_subseq: "scan settings i points d = Inr (r, d') \<Longrightarrow> subseq r points"
proof (induction settings i points d rule: scan.induct)
  case (1 settings i points d)
  show ?case
  proof (cases "i + 1 < length points")
    case False
    with "1.prems" show ?thesis by (simp add: scan.simps)
  next
    case True
    then obtain passed d1 where
      pp: "processPoints settings (points ! (i - 1)) (points ! i) (Some (points ! (i + 1))) d
             = Inr (passed, d1)"
      using "1.prems" by (subst (asm) scan.simps) (auto split: sum.splits)
    show ?thesis
    proof (cases passed)
      case True
      with \<open>i + 1 < length points\<close> pp "1.prems"
      have "scan settings (i + 1) points d1 = Inr (r, d')"
        by (subst (asm) scan.simps) simp
      with "1.IH"(2)[OF \<open>i + 1 < length points\<close> pp refl] True show ?thesis by simp
    next
      case False
      with \<open>i + 1 < length points\<close> pp "1.prems"
      have "scan settings i (splice1 i points) d1 = Inr (r, d')"
        by (subst (asm) scan.simps) simp
      with "1.IH"(1)[OF \<open>i + 1 < length points\<close> pp refl] False
      have "subseq r (splice1 i points)" by simp
      then show ?thesis using subseq_splice1 subseq_order.order_trans by blast
    qed
  qed
qed

lemma onePass_subseq: "onePass settings points d = Inr (r, d') \<Longrightarrow> subseq r points"
  unfolding onePass_def
  by (auto split: sum.splits if_splits prod.splits dest!: scan_subseq
       intro: subseq_order.order_trans[OF _ subseq_splice1])

lemma passesLoop_subseq: "passesLoop settings n points d = Inr (r, d') \<Longrightarrow> subseq r points"
proof (induction n arbitrary: points d)
  case 0
  then show ?case by simp
next
  case (Suc n)
  then show ?case
    by (auto split: sum.splits prod.splits dest!: onePass_subseq
         intro: subseq_order.order_trans)
qed

section \<open>When the optimizer returns an array\<close>

text \<open>On keyframes of one arity no comparison raises, provided the scratch arrays are
  balanced; they stay balanced.\<close>

lemma length_js_set: "length (js_set xs i v) = max (length xs) (Suc i)"
  by (simp add: js_set_def)

lemma length_foldl_js_set:
  "length (foldl (\<lambda>s i. js_set s i (f i)) xs [0 ..< n]) = max (length xs) n"
  by (induction n) (simp_all add: length_js_set)

lemma length_SlopeOfPoint:
  "length (SlopeOfPoint a b slopes) = max (length slopes) (length (values b))"
  by (simp add: SlopeOfPoint_def length_foldl_js_set)

lemma length_GetYIntercept:
  "length (GetYIntercept p slopeArray ys) = max (length ys) (length slopeArray)"
  by (simp add: GetYIntercept_def length_foldl_js_set)

lemma ComparePointsSlope_total:
  assumes "length (values b) = length (values c)" "balanced d"
  shows "\<exists>res d'. ComparePointsSlope a b c d tT dT yT = Inr (res, d') \<and> balanced d'"
  using assms unfolding ComparePointsSlope_def balanced_def
  by (auto simp: areFloatsSimilar_def Let_def length_SlopeOfPoint length_GetYIntercept
       split: sum.splits bool.splits)

lemma optimizeSimilarPointsSlope_total:
  assumes "\<And>k. c = Some k \<Longrightarrow> length (values b) = length (values k)" "balanced d"
  shows "\<exists>res d'. optimizeSimilarPointsSlope a b c dT tT yT d = Inr (res, d') \<and> balanced d'"
proof (cases c)
  case None
  then show ?thesis using assms(2) by (simp add: optimizeSimilarPointsSlope_def)
next
  case (Some k)
  with assms(1) have "length (values b) = length (values k)" by simp
  from ComparePointsSlope_total[OF this assms(2), of a tT dT yT]
  obtain res d' where "ComparePointsSlope a b k d tT dT yT = Inr (res, d')" "balanced d'"
    by blast
  then show ?thesis using Some assms(2) by (simp add: optimizeSimilarPointsSlope_def)
qed

lemma arePointSimilar_total:
  "length (values a) = length (values b) \<Longrightarrow> \<exists>s. arePointSimilar a b dT tT = Inr s"
  by (simp add: arePointSimilar_def areFloatsSimilar_def)

lemma optimizeSimilarPoints_total:
  assumes "length (values a) = length (values b)"
    "\<And>k. c = Some k \<Longrightarrow> length (values b) = length (values k)"
  shows "\<exists>res. optimizeSimilarPoints a b c dT tT = Inr res"
proof -
  obtain s where s: "arePointSimilar a b dT tT = Inr s"
    using arePointSimilar_total[OF assms(1)] by blast
  show ?thesis
  proof (cases c)
    case None
    then show ?thesis using s by (simp add: optimizeSimilarPoints_def)
  next
    case (Some k)
    then obtain s' where "arePointSimilar b k dT tT = Inr s'"
      using arePointSimilar_total[of b k] assms(2) by blast
    then show ?thesis using s Some by (simp add: optimizeSimilarPoints_def split: bool.splits)
  qed
qed

lemma processPoints_total:
  assumes "length (values a) = length (values b)"
    "\<And>k. c = Some k \<Longrightarrow> length (values b) = length (values k)" "balanced d"
  shows "\<exists>passed d'. processPoints settings a b c d = Inr (passed, d') \<and> balanced d'"
proof -
  obtain r1 where r1: "optimizeSimilarPoints a b c
      (differenceThreshold (optimizeSimilarPointsSetting settings))
      (timeDifferenceThreshold (optimizeSimilarPointsSetting settings)) = Inr r1"
    using optimizeSimilarPoints_total[OF assms(1,2)] by blast
  obtain r2 d2 where r2: "optimizeSimilarPointsSlope a b c
      (differenceThreshold (optimizeSimilarPointsSetting settings))
      (timeDifferenceThreshold (optimizeSimilarPointsSetting settings))
      (yInterceptDifferenceThreshold (optimizeSimilarPointsSlopeSetting settings)) d = Inr (r2, d2)"
    and b2: "balanced d2"
    using optimizeSimilarPointsSlope_total[OF assms(2,3)] by blast
  show ?thesis
    unfolding processPoints_def Let_def
    by (cases "active (optimizeSimilarPointsSetting settings)";
        cases "active (optimizeSimilarPointsSlopeSetting settings)")
       (simp_all add: r1 r2 b2 assms(3))
qed

lemma processPoints_total3:
  "length (values a) = length (values b) \<Longrightarrow> length (values b) = length (values k) \<Longrightarrow>
   balanced d \<Longrightarrow>
   \<exists>passed d'. processPoints settings a b (Some k) d = Inr (passed, d') \<and> balanced d'"
  using processPoints_total[of a b "Some k" d settings] by simp

lemma processPoints_total2:
  "length (values a) = length (values b) \<Longrightarrow> balanced d \<Longrightarrow>
   \<exists>passed d'. processPoints settings a b None d = Inr (passed, d') \<and> balanced d'"
  using processPoints_total[of a b None d settings] by simp

lemma set_splice1: "set (splice1 i ps) \<subseteq> set ps"
  using set_take_subset[of i ps] set_drop_subset[of "Suc i" ps] by (simp add: splice1_def)

lemma scan_total:
  assumes "\<forall>k\<in>set points. length (values k) = n" "balanced d"
  shows "\<exists>r d'. scan settings i points d = Inr (r, d') \<and> balanced d'"
  using assms
proof (induction settings i points d rule: scan.induct)
  case (1 settings i points d)
  show ?case
  proof (cases "i + 1 < length points")
    case False
    then have "scan settings i points d = Inr (points, d)" by (subst scan.simps) simp
    then show ?thesis using "1.prems"(2) by blast
  next
    case inside: True
    have "points ! (i - 1) \<in> set points" "points ! i \<in> set points"
      "points ! (i + 1) \<in> set points"
      using inside by simp_all
    then have ar: "length (values (points ! (i - 1))) = n" "length (values (points ! i)) = n"
      "length (values (points ! (i + 1))) = n"
      using "1.prems"(1) by blast+
    have ar1: "length (values (points ! (i - 1))) = length (values (points ! i))"
      and ar2: "length (values (points ! i)) = length (values (points ! (i + 1)))"
      using ar by simp_all
    obtain passed d1 where
      pp: "processPoints settings (points ! (i - 1)) (points ! i) (Some (points ! (i + 1))) d
             = Inr (passed, d1)" and b1: "balanced d1"
      using processPoints_total3[OF ar1 ar2 "1.prems"(2)] by blast
    have step: "scan settings i points d =
        (if \<not> passed then scan settings i (splice1 i points) d1
         else scan settings (i + 1) points d1)"
      using inside pp by (subst scan.simps) simp
    show ?thesis
    proof (cases passed)
      case True
      have "\<exists>r d'. scan settings (i + 1) points d1 = Inr (r, d') \<and> balanced d'"
        by (rule "1.IH"(2)[OF inside pp refl _ "1.prems"(1) b1]) (simp add: True)
      then show ?thesis by (simp only: step True not_True_eq_False if_False)
    next
      case False
      have "\<forall>k\<in>set (splice1 i points). length (values k) = n"
        using "1.prems"(1) set_splice1[of i points] by auto
      then have "\<exists>r d'. scan settings i (splice1 i points) d1 = Inr (r, d') \<and> balanced d'"
        using "1.IH"(1)[OF inside pp refl False _ b1] by simp
      then show ?thesis by (simp only: step False not_False_eq_True if_True)
    qed
  qed
qed


lemma onePass_total:
  assumes "\<forall>k\<in>set points. length (values k) = n" "balanced d"
  shows "\<exists>r d'. onePass settings points d = Inr (r, d') \<and> balanced d'"
proof (cases "length points = 2")
  case False
  then show ?thesis using scan_total[OF assms, of settings 1] by (simp add: onePass_def)
next
  case True
  then have "length (values (points ! 0)) = length (values (points ! 1))"
    using assms(1) by simp
  from processPoints_total2[OF this assms(2)]
  obtain passed d1 where
    pp: "processPoints settings (points ! 0) (points ! 1) None d = Inr (passed, d1)"
    and b1: "balanced d1" by blast
  define ps where "ps = (if \<not> passed then splice1 1 points else points)"
  have "\<forall>k\<in>set ps. length (values k) = n"
    using assms(1) set_splice1[of 1 points] by (auto simp: ps_def)
  from scan_total[OF this b1, of settings 1] show ?thesis
    using True pp by (simp add: onePass_def ps_def)
qed

lemma passesLoop_total:
  assumes "\<forall>k\<in>set points. length (values k) = n" "balanced d"
  shows "\<exists>r d'. passesLoop settings passes points d = Inr (r, d') \<and> balanced d'"
  using assms
proof (induction passes arbitrary: points d)
  case 0
  then show ?case by simp
next
  case (Suc passes)
  from onePass_total[OF Suc.prems, of settings] obtain r d1 where
    r: "onePass settings points d = Inr (r, d1)" "balanced d1" by blast
  have "set r \<subseteq> set points"
    using onePass_subseq[OF r(1)] by (auto elim: list_emb_set)
  with Suc.prems(1) have "\<forall>k\<in>set r. length (values k) = n" by blast
  from Suc.IH[OF this r(2)] show ?case using r(1) by simp
qed


lemma optimizePoints_returns_array:
  assumes "\<forall>k\<in>set points. length (values k) = n" "balanced d"
    "optimize settings = False \<or> 2 \<le> length points"
  shows "\<exists>r d'. optimizePoints points settings passes d = Inr (Some r, d') \<and> balanced d'"
proof (cases "optimize settings = False")
  case True
  then show ?thesis using assms(2) by (simp add: optimizePoints_def)
next
  case False
  with assms(3) have len: "\<not> length (sort_key time points) < 2" by simp
  have "\<forall>k\<in>set (sort_key time points). length (values k) = n" using assms(1) by simp
  from passesLoop_total[OF this assms(2), of settings passes] obtain r d' where
    "passesLoop settings passes (sort_key time points) d = Inr (r, d')" "balanced d'" by blast
  then show ?thesis using False len by (simp add: optimizePoints_def Let_def)
qed

text \<open>
  C9, as the code has it. Whatever the settings, the passes and the state of the scratch
  arrays, an array returned by \<open>optimizePoints\<close> is a subsequence of the working array (the
  input sorted stably by time, or the input as given when optimize is off): it is no longer
  than the input, its keyframes are keyframes of the input, unchanged, and they keep the
  relative order they have in the working array. An array is returned for every input when
  optimize is off, and for every input of at least two keyframes of one arity when it is on
  (the scratch arrays being balanced, as they are initially; such a call leaves them balanced).
\<close>

theorem optimizePoints_stable_subsequence:
  "(optimizePoints points settings passes d = Inr (Some r, d') \<longrightarrow>
      subseq r (workingArray settings points) \<and> length r \<le> length points \<and>
      set r \<subseteq> set points) \<and>
   ((\<forall>k\<in>set points. length (values k) = n) \<and> balanced d \<and>
    (optimize settings = False \<or> 2 \<le> length points) \<longrightarrow>
      (\<exists>r' d''. optimizePoints points settings passes d = Inr (Some r', d'') \<and> balanced d''))"
proof (intro conjI impI)
  assume a: "optimizePoints points settings passes d = Inr (Some r, d')"
  have s: "subseq r (workingArray settings points)"
    using a unfolding optimizePoints_def workingArray_def
    by (auto simp: Let_def split: if_splits sum.splits prod.splits dest!: passesLoop_subseq)
  then show "subseq r (workingArray settings points)" .
  have l: "length (workingArray settings points) = length points"
    and e: "set (workingArray settings points) = set points"
    by (simp_all add: workingArray_def)
  show "length r \<le> length points" using list_emb_length[OF s] l by simp
  have "set r \<subseteq> set (workingArray settings points)"
    using s by (auto elim: list_emb_set)
  then show "set r \<subseteq> set points" using e by simp
next
  assume "(\<forall>k\<in>set points. length (values k) = n) \<and> balanced d \<and>
    (optimize settings = False \<or> 2 \<le> length points)"
  then show "\<exists>r' d''. optimizePoints points settings passes d = Inr (Some r', d'') \<and>
      balanced d''"
    using optimizePoints_returns_array[of points n d settings passes] by blast
qed

theorem optimizePoints_stable_subsequence_witness:
  "optimizePoints [plainKeyframe [9, 0] 1, plainKeyframe [0, 0] 0, plainKeyframe [5, 0] (1 / 2)]
       onlyDuplicates 1 emptyDummy
     = Inr (Some [plainKeyframe [0, 0] 0, plainKeyframe [9, 0] 1], emptyDummy) \<and>
   subseq [plainKeyframe [0, 0] 0, plainKeyframe [9, 0] 1]
     (workingArray onlyDuplicates
        [plainKeyframe [9, 0] 1, plainKeyframe [0, 0] 0, plainKeyframe [5, 0] (1 / 2)]) \<and>
   length [plainKeyframe [0, 0] 0, plainKeyframe [9, 0] 1] \<le>
     length [plainKeyframe [9, 0] 1, plainKeyframe [0, 0] 0, plainKeyframe [5, 0] (1 / 2)] \<and>
   (\<exists>r' d''. optimizePoints
        [plainKeyframe [9, 0] 1, plainKeyframe [0, 0] 0, plainKeyframe [5, 0] (1 / 2)]
        defaultSettings 2 emptyDummy
      = Inr (Some r', d'') \<and> balanced d'')"
proof -
  have run: "optimizePoints
       [plainKeyframe [9, 0] 1, plainKeyframe [0, 0] 0, plainKeyframe [5, 0] (1 / 2)]
       onlyDuplicates 1 emptyDummy
     = Inr (Some [plainKeyframe [0, 0] 0, plainKeyframe [9, 0] 1], emptyDummy)"
    by (simp add: optimizer_defs)
  have wf: "(\<forall>k\<in>set [plainKeyframe [9, 0] 1, plainKeyframe [0, 0] 0,
                        plainKeyframe [5, 0] (1 / 2)]. length (values k) = 2) \<and>
      balanced emptyDummy \<and>
      (optimize defaultSettings = False \<or>
       2 \<le> length [plainKeyframe [9, 0] 1, plainKeyframe [0, 0] 0,
                    plainKeyframe [5, 0] (1 / 2)])"
    by (simp add: plainKeyframe_def balanced_def emptyDummy_def)
  from optimizePoints_stable_subsequence
         [of "[plainKeyframe [9, 0] 1, plainKeyframe [0, 0] 0, plainKeyframe [5, 0] (1 / 2)]"
             onlyDuplicates 1 emptyDummy "[plainKeyframe [0, 0] 0, plainKeyframe [9, 0] 1]"
             emptyDummy 2]
       optimizePoints_stable_subsequence
         [of "[plainKeyframe [9, 0] 1, plainKeyframe [0, 0] 0, plainKeyframe [5, 0] (1 / 2)]"
             defaultSettings 2 emptyDummy "[]" emptyDummy 2]
       run wf
  show ?thesis by blast
qed

text \<open>
  C9, as the claim states it, fails: not every input makes \<open>optimizePoints\<close> return a
  sequence. On two keyframes of different arity, with the similar-points family active, the
  comparison raises and nothing is returned.
\<close>

theorem optimizePoints_raises_on_mixed_arity:
  "optimizePoints [plainKeyframe [0, 0] 0, plainKeyframe [0] 1] onlySimilar 1 emptyDummy
     = Inl (ArraysNotMatchingLengths 2 1)"
  by (simp add: optimizer_defs arePointSimilar_def areFloatsSimilar_def)

section \<open>The two solvers are inverse to each other\<close>

lemma solve_apply_loop:
  assumes "sorted_wrt (<) (fst l # map fst cs)" "0 < snd l" "\<forall>c\<in>set cs. 0 < snd c"
    "im \<le> x" "cs \<noteq> []"
  shows "\<exists>y. solveLoop x (Some l) im cs = Some y \<and> fst l \<le> y \<and> applyLoop y (Some l) im cs = x"
  using assms
proof (induction cs arbitrary: l im)
  case Nil
  then show ?case by simp
next
  case (Cons c rest)
  define im' where "im' = im + snd l * (fst c - fst l)"
  have lc: "fst l < fst c" using Cons.prems(1) by simp
  have rl: "0 < snd l" and rc: "0 < snd c" using Cons.prems by simp_all
  show ?case
  proof (cases "im' > x")
    case True
    define y where "y = fst l + (x - im) / snd l"
    have s: "solveLoop x (Some l) im (c # rest) = Some y"
      using True rl by (simp add: im'_def y_def finiteQuotient_def Let_def)
    have ge: "fst l \<le> y" using rl Cons.prems(4) by (simp add: y_def)
    have "(x - im) / snd l < fst c - fst l"
      using True rl by (simp add: im'_def pos_divide_less_eq mult.commute)
    then have lt: "\<not> fst c \<le> y" by (simp add: y_def)
    have "im + snd l * (y - fst l) = x" using rl by (simp add: y_def)
    with lt have "applyLoop y (Some l) im (c # rest) = x" by simp
    with s ge show ?thesis by blast
  next
    case False
    then have le: "im' \<le> x" by simp
    show ?thesis
    proof (cases "rest = []")
      case True
      define y where "y = fst c + (x - im') / snd c"
      have s: "solveLoop x (Some l) im (c # rest) = Some y"
        using False True rc by (simp add: im'_def y_def finiteQuotient_def Let_def)
      have gec: "fst c \<le> y" using rc le by (simp add: y_def)
      then have ge: "fst l \<le> y" using lc by simp
      have "im' + snd c * (y - fst c) = x" using rc by (simp add: y_def)
      with gec True have "applyLoop y (Some l) im (c # rest) = x"
        by (simp add: im'_def Let_def)
      with s ge show ?thesis by blast
    next
      case ne: False
      have "sorted_wrt (<) (fst c # map fst rest)" using Cons.prems(1) by simp
      moreover have "\<forall>c\<in>set rest. 0 < snd c" using Cons.prems(3) by simp
      ultimately obtain y where
        y: "solveLoop x (Some c) im' rest = Some y" "fst c \<le> y" "applyLoop y (Some c) im' rest = x"
        using Cons.IH[of c im'] rc le ne by blast
      have s: "solveLoop x (Some l) im (c # rest) = Some y"
        using False ne y(1) by (simp add: im'_def Let_def)
      have "applyLoop y (Some l) im (c # rest) = x"
        using y(2,3) ne by (simp add: im'_def Let_def)
      moreover have "fst l \<le> y" using lc y(2) by simp
      ultimately show ?thesis using s by blast
    qed
  qed
qed

lemma solve_applyChanges:
  assumes "sorted_wrt (<) (map fst changes)" "\<forall>c\<in>set changes. 0 < snd c"
  shows "\<exists>y. solve x changes = Some y \<and> applyChanges y changes = x"
proof (cases changes)
  case Nil
  then show ?thesis by (simp add: solve_def applyChanges_def)
next
  case (Cons c rest)
  have rc: "0 < snd c" using assms(2) Cons by simp
  show ?thesis
  proof (cases "fst c > x")
    case True
    then show ?thesis using Cons by (simp add: solve_def applyChanges_def)
  next
    case False
    then have le: "fst c \<le> x" by simp
    show ?thesis
    proof (cases "rest = []")
      case True
      define y where "y = fst c + (x - fst c) / snd c"
      have ge: "fst c \<le> y" using rc le by (simp add: y_def)
      have eq: "fst c + snd c * (y - fst c) = x" using rc by (simp add: y_def)
      have s: "solve x changes = Some y"
        using Cons True False rc by (simp add: solve_def finiteQuotient_def y_def Let_def)
      have "applyChanges y changes = x"
        using Cons True ge eq by (simp add: applyChanges_def Let_def)
      with s show ?thesis by blast
    next
      case ne: False
      have "sorted_wrt (<) (fst c # map fst rest)" using assms(1) Cons by simp
      moreover have "\<forall>c\<in>set rest. 0 < snd c" using assms(2) Cons by simp
      ultimately obtain y where
        y: "solveLoop x (Some c) (fst c) rest = Some y" "fst c \<le> y"
           "applyLoop y (Some c) (fst c) rest = x"
        using solve_apply_loop[of c rest "fst c" x] rc le ne by blast
      then show ?thesis using Cons False ne
        by (simp add: solve_def applyChanges_def)
    qed
  qed
qed

lemma those_map_Some: "(\<And>x. x \<in> set xs \<Longrightarrow> f x = Some (g x)) \<Longrightarrow> those (map f xs) = Some (map g xs)"
  by (induction xs) auto

text \<open>
  C5, as the code has it. For a table whose breakpoints increase strictly and whose rates are
  all positive, and for every number \<open>x\<close>, solving and then applying with the same table
  gives \<open>x + offset\<close>, exactly (in real arithmetic): the round trip adds the offset, and
  returns \<open>x\<close> itself for the offset 0.
\<close>

theorem solve_then_apply_adds_offset:
  assumes "sorted_wrt (<) (map fst changes)" "\<forall>c\<in>set changes. 0 < snd c"
  shows "\<exists>ids'. solveLightMap changes ids = Some ids' \<and>
           applyLightMap (offset, changes) ids' = map (\<lambda>x. x + offset) ids"
proof -
  define g where "g x = the (solve x changes)" for x
  have g: "solve x changes = Some (g x) \<and> applyChanges (g x) changes = x" for x
    using solve_applyChanges[OF assms, of x] by (auto simp: g_def)
  have "solveLightMap changes ids = Some (map g ids)"
    unfolding solveLightMap_def by (rule those_map_Some) (simp add: g)
  moreover have "applyLightMap (offset, changes) (map g ids) = map (\<lambda>x. x + offset) ids"
    by (simp add: applyLightMap_def g)
  ultimately show ?thesis by blast
qed

theorem solve_then_apply_adds_offset_witness:
  "solveLightMap [(1, 2), (5, 3)] [4, 10] = Some [5 / 2, 16 / 3] \<and>
   applyLightMap (0, [(1, 2), (5, 3)]) [5 / 2, 16 / 3] = [4, 10]"
proof -
  have s: "solveLightMap [(1, 2), (5, 3)] [4, 10] = Some [5 / 2, 16 / 3]"
    by (simp add: solveLightMap_def solve_def finiteQuotient_def)
  from solve_then_apply_adds_offset [of "[(1, 2), (5, 3)]" "[4, 10]" 0] s
  show ?thesis by simp
qed

text \<open>
  C5, as the claim states it, fails in two ways. With the table \<open>[(1, 2), (5, 3)]\<close> and the
  offset 5 the value 4, strictly between the breakpoints, comes back as 9: the offset is
  added. With the strictly increasing table \<open>[(1, -1), (3, -1)]\<close> and the offset 0 the value
  2 comes back as 0: a negative rate breaks the round trip.
\<close>

theorem solve_then_apply_not_identity:
  "solveLightMap [(1, 2), (5, 3)] [4] = Some [5 / 2] \<and>
   applyLightMap (5, [(1, 2), (5, 3)]) [5 / 2] = [9] \<and>
   solveLightMap [(1, - 1), (3, - 1)] [2] = Some [0] \<and>
   applyLightMap (0, [(1, - 1), (3, - 1)]) [0] = [0]"
  by (simp add: solveLightMap_def applyLightMap_def solve_def applyChanges_def
      finiteQuotient_def)

section \<open>The processes and the scalar/sequence helper\<close>

text \<open>
  C8, as the code has it. For an event whose \<open>lightID\<close> is truthy (an array, or a number
  other than 0), \<open>addToEnd\<close> maps every id \<open>i\<close> to \<open>(i - 1) * step + 1 + offset\<close> when a
  step other than 0 is given and to \<open>i + offset\<close> when the step is absent or 0, and writes the
  ids back through the demotion of the helper; an event whose \<open>lightID\<close> is absent or the
  number 0 is left as it is. In particular \<open>addToEnd 10\<close> maps the id 7 to 17, and with the
  step 2 to 23.
\<close>

theorem addToEnd_maps_ids:
  "(truthyID (lightID x) \<and> lightID x = Some l \<longrightarrow>
      addToEnd offset step x =
        x\<lparr> lightID := Some (demote (map (\<lambda>i. case step of
                                              None \<Rightarrow> i + offset
                                            | Some s \<Rightarrow> if s = 0 then i + offset
                                                        else (i - 1) * s + 1 + offset)
                                      (promote l))) \<rparr>) \<and>
   (\<not> truthyID (lightID x) \<longrightarrow> addToEnd offset step x = x) \<and>
   lightID (addToEnd 10 None (eventWithID (Single 7))) = Some (Single 17) \<and>
   lightID (addToEnd 10 (Some 2) (eventWithID (Single 7))) = Some (Single 23)"
  by (auto simp: addToEnd_def complexifyLightIDs_def eventWithID_def promote_def demote_def
      Let_def split: option.splits)

theorem addToEnd_maps_ids_witness:
  "addToEnd 10 (Some 2) (eventWithID (Many [7, 1])) = eventWithID (Many [23, 11]) \<and>
   addToEnd 10 (Some 2) \<lparr> type = 0, color = None, lightID = None \<rparr>
     = \<lparr> type = 0, color = None, lightID = None \<rparr>"
  using addToEnd_maps_ids [of "eventWithID (Many [7, 1])" "Many [7, 1]" 10 "Some 2"]
    addToEnd_maps_ids [of "\<lparr> type = 0, color = None, lightID = None \<rparr>" "Many []" 10 "Some 2"]
  by (simp add: eventWithID_def promote_def demote_def)

text \<open>
  C8, as the claim states it, fails: a given step of 0 is treated as absent, so the id 7 goes
  to 17 and not to \<open>(7 - 1) * 0 + 1 + 10 = 11\<close>; and an event whose \<open>lightID\<close> is the
  number 0 has a \<open>lightID\<close> and is not mapped at all.
\<close>

theorem addToEnd_ignores_zero_step_and_zero_id:
  "lightID (addToEnd 10 (Some 0) (eventWithID (Single 7))) = Some (Single 17) \<and>
   (7 - 1) * 0 + 1 + 10 \<noteq> (17 :: real) \<and>
   lightID (addToEnd 10 None (eventWithID (Single 0))) = Some (Single 0)"
  by (simp add: addToEnd_def complexifyLightIDs_def eventWithID_def promote_def demote_def)

text \<open>
  C10, as the code has it. For an event whose \<open>lightID\<close> is a one-element sequence,
  \<open>addToEnd\<close>, \<open>remapEnd\<close>, \<open>normalizeWithChanges\<close> and \<open>normalizeLinear\<close> write a bare
  number back (the last two whenever the solved id is a finite number); \<open>appendIDs\<close> writes
  a bare number back only when the appended ids are an empty sequence, and the longer
  sequence otherwise. The helper demotes every callback result of exactly one element to a
  bare number, whatever the shape of the \<open>lightID\<close> it was given.
\<close>

theorem one_element_lightID_written_back:
  "lightID x = Some (Many [i]) \<Longrightarrow>
     addToEnd offset step x =
       x\<lparr> lightID := Some (Single (case step of
                                     None \<Rightarrow> i + offset
                                   | Some s \<Rightarrow> if s = 0 then i + offset
                                               else (i - 1) * s + 1 + offset)) \<rparr> \<and>
     remapEnd map' offset x = x\<lparr> lightID := Some (Single (applyChanges i map' + offset)) \<rparr> \<and>
     normalizeWithChanges map' x
       = map_option (\<lambda>v. x\<lparr> lightID := Some (Single v) \<rparr>) (solve i map') \<and>
     normalizeLinear step' start x
       = map_option (\<lambda>v. x\<lparr> lightID := Some (Single v) \<rparr>) (solve i [(start, step')]) \<and>
     appendIDs appended initialize x
       = x\<lparr> lightID := Some (if promote appended = [] then Single i
                               else Many (i # promote appended)) \<rparr> \<and>
     (callback (promote l) = [v] \<longrightarrow> complexifyLightIDs l callback = Single v)"
  apply (intro conjI)
  subgoal by (auto simp: addToEnd_def complexifyLightIDs_def promote_def demote_def Let_def
               split: option.splits)
  subgoal by (simp add: remapEnd_def complexifyLightIDs_def promote_def demote_def
               applyLightMap_def)
  subgoal by (cases "solve i map'")
      (simp_all add: normalizeWithChanges_def solveLightMap_def promote_def demote_def)
  subgoal by (cases "solve i [(start, step')]")
      (simp_all add: normalizeLinear_def solveLightMap_def promote_def demote_def)
  subgoal by (cases "promote appended")
      (simp_all add: appendIDs_def complexifyLightIDs_def promote_def demote_def Let_def)
  subgoal by (simp add: complexifyLightIDs_def demote_def)
  done

theorem one_element_lightID_written_back_witness:
  "addToEnd 10 (Some 2) (eventWithID (Many [7])) = eventWithID (Single 23) \<and>
   remapEnd [(1, 2)] 0 (eventWithID (Many [3])) = eventWithID (Single 5) \<and>
   normalizeWithChanges [(1, 2), (3, 1)] (eventWithID (Many [5])) = Some (eventWithID (Single 3)) \<and>
   normalizeLinear 2 1 (eventWithID (Many [5])) = Some (eventWithID (Single 3)) \<and>
   appendIDs (Many []) False (eventWithID (Many [3])) = eventWithID (Single 3) \<and>
   appendIDs (Single 5) False (eventWithID (Many [3])) = eventWithID (Many [3, 5]) \<and>
   complexifyLightIDs (Single 4) (map (\<lambda>i. i + 1)) = Single 5"
  using one_element_lightID_written_back
          [of "eventWithID (Many [7])" 7 10 "Some 2" "[(1, 2)]" 2 1 "Many []" False
              "map (\<lambda>i. i + 1)" "Single 4" 5]
        one_element_lightID_written_back
          [of "eventWithID (Many [3])" 3 0 None "[(1, 2)]" 2 1 "Many []" False
              "map (\<lambda>i. i + 1)" "Single 4" 5]
        one_element_lightID_written_back
          [of "eventWithID (Many [5])" 5 0 None "[(1, 2), (3, 1)]" 2 1 "Many []" False
              "map (\<lambda>i. i + 1)" "Single 4" 5]
        one_element_lightID_written_back
          [of "eventWithID (Many [3])" 3 0 None "[(1, 2)]" 2 1 "Single 5" False
              "map (\<lambda>i. i + 1)" "Single 4" 5]
  by (simp add: eventWithID_def promote_def solve_def applyChanges_def finiteQuotient_def)

text \<open>
  C10, as the claim states it, fails for \<open>appendIDs\<close>: appending the id 5 to the
  one-element sequence \<open>[3]\<close> writes the sequence \<open>[3, 5]\<close> back, not a bare number.
\<close>

theorem appendIDs_keeps_sequence:
  "appendIDs (Single 5) False (eventWithID (Many [3])) = eventWithID (Many [3, 5])"
  by (simp add: appendIDs_def complexifyLightIDs_def eventWithID_def promote_def demote_def)

section \<open>Further facts about the optimizer\<close>

text \<open>With optimize off, \<open>optimizePoints\<close> returns its input as it is, whatever the input.\<close>

theorem optimizePoints_disabled_is_identity:
  "optimize settings = False \<Longrightarrow> optimizePoints points settings passes d = Inr (Some points, d)"
  by (simp add: optimizePoints_def)

theorem optimizePoints_disabled_is_identity_witness:
  "optimizePoints [plainKeyframe [9, 0] 1, plainKeyframe [0, 0] 0]
       (defaultSettings \<lparr> optimize := False \<rparr>) 3 emptyDummy
     = Inr (Some [plainKeyframe [9, 0] 1, plainKeyframe [0, 0] 0], emptyDummy)"
  using optimizePoints_disabled_is_identity
          [of "defaultSettings \<lparr> optimize := False \<rparr>"
              "[plainKeyframe [9, 0] 1, plainKeyframe [0, 0] 0]" 3 emptyDummy]
  by simp

text \<open>The sort keeps keyframes of equal time in the order of the input.\<close>

theorem workingArray_keeps_ties_in_input_order:
  "filter (\<lambda>k. time k = t) (workingArray settings points) = filter (\<lambda>k. time k = t) points"
  by (simp add: workingArray_def sort_key_stable)

text \<open>\<open>processPoints\<close> is true exactly when every active family returned a point, that
  is, flagged the pair or the middle point as redundant.\<close>

theorem processPoints_true_iff_all_active_flag:
  "processPoints settings a b c d = Inr (passed, d') \<Longrightarrow>
   passed =
     ((active (optimizeDuplicatesSetting settings) \<longrightarrow> optimizeDuplicates a b c \<noteq> None) \<and>
      (active (optimizeSimilarPointsSetting settings) \<longrightarrow>
         optimizeSimilarPoints a b c
           (differenceThreshold (optimizeSimilarPointsSetting settings))
           (timeDifferenceThreshold (optimizeSimilarPointsSetting settings)) \<noteq> Inr None) \<and>
      (active (optimizeSimilarPointsSlopeSetting settings) \<longrightarrow>
         optimizeSimilarPointsSlope a b c
           (differenceThreshold (optimizeSimilarPointsSetting settings))
           (timeDifferenceThreshold (optimizeSimilarPointsSetting settings))
           (yInterceptDifferenceThreshold (optimizeSimilarPointsSlopeSetting settings)) d
           \<noteq> Inr (None, d')))"
  unfolding processPoints_def Let_def
  by (cases "active (optimizeDuplicatesSetting settings)";
      cases "active (optimizeSimilarPointsSetting settings)";
      cases "active (optimizeSimilarPointsSlopeSetting settings)")
     (auto split: sum.splits prod.splits if_splits)

theorem processPoints_true_iff_all_active_flag_witness:
  "processPoints onlyDuplicates (plainKeyframe [0, 0] 0) (plainKeyframe [0, 0] (1 / 2))
       (Some (plainKeyframe [0, 0] 1)) emptyDummy
     = Inr (True, emptyDummy) \<and>
   optimizeDuplicates (plainKeyframe [0, 0] 0) (plainKeyframe [0, 0] (1 / 2))
       (Some (plainKeyframe [0, 0] 1)) \<noteq> None"
proof -
  have run: "processPoints onlyDuplicates (plainKeyframe [0, 0] 0) (plainKeyframe [0, 0] (1 / 2))
       (Some (plainKeyframe [0, 0] 1)) emptyDummy
     = Inr (True, emptyDummy)"
    by (simp add: optimizer_defs)
  from processPoints_true_iff_all_active_flag [OF run] run show ?thesis
    by (simp add: onlyDuplicates_def familySettings_def)
qed

text \<open>One iteration of the interior loop: the middle point is spliced out exactly when
  \<open>processPoints\<close> is false, and the loop then runs again at the same index; otherwise it
  moves to the next index.\<close>

theorem scan_step:
  "i + 1 < length points \<Longrightarrow>
   processPoints settings (points ! (i - 1)) (points ! i) (Some (points ! (i + 1))) d
     = Inr (passed, d') \<Longrightarrow>
   scan settings i points d =
     (if passed then scan settings (i + 1) points d'
      else scan settings i (splice1 i points) d')"
  by (subst scan.simps) simp

theorem scan_step_witness:
  "scan onlyDuplicates 1
       [plainKeyframe [0, 0] 0, plainKeyframe [5, 0] (1 / 2), plainKeyframe [9, 0] 1] emptyDummy
     = scan onlyDuplicates 1 [plainKeyframe [0, 0] 0, plainKeyframe [9, 0] 1] emptyDummy"
proof -
  have run: "processPoints onlyDuplicates (plainKeyframe [0, 0] 0) (plainKeyframe [5, 0] (1 / 2))
       (Some (plainKeyframe [9, 0] 1)) emptyDummy
     = Inr (False, emptyDummy)"
    by (simp add: optimizer_defs)
  from scan_step [of 1 "[plainKeyframe [0, 0] 0, plainKeyframe [5, 0] (1 / 2),
                         plainKeyframe [9, 0] 1]" onlyDuplicates emptyDummy False emptyDummy]
    run
  show ?thesis by (simp add: splice1_def)
qed

text \<open>The result of \<open>optimizePoints\<close> depends on what earlier calls left in the scratch
  arrays. With only the slope family active and empty scratch arrays, three collinear
  one-channel keyframes come back as they are. A call on two-channel keyframes leaves two
  entries in every scratch array; after it the same one-channel input loses its middle
  keyframe, because the comparison of the slope arrays runs over the stale second entries
  as well.\<close>

theorem optimizePoints_depends_on_scratch_arrays:
  "optimizePoints [plainKeyframe [0] 0, plainKeyframe [1] 1, plainKeyframe [2] 2]
       onlySlope 1 emptyDummy
     = Inr (Some [plainKeyframe [0] 0, plainKeyframe [1] 1, plainKeyframe [2] 2],
            \<lparr> middleSlope = [Num 1], endSlope = [Num 1],
              middleYIntercepts = [Num 0], endYIntercepts = [Num 0] \<rparr>) \<and>
   optimizePoints [plainKeyframe [0, 0] 0, plainKeyframe [1, 1] 1, plainKeyframe [2, 2 / 7] 2]
       onlySlope 1 emptyDummy
     = Inr (Some [plainKeyframe [0, 0] 0, plainKeyframe [2, 2 / 7] 2],
            \<lparr> middleSlope = [Num 1, Num 1], endSlope = [Num 1, Num 7],
              middleYIntercepts = [Num 0, Num 0], endYIntercepts = [Num 0, Num 0] \<rparr>) \<and>
   optimizePoints [plainKeyframe [0] 0, plainKeyframe [1] 1, plainKeyframe [2] 2]
       onlySlope 1
       \<lparr> middleSlope = [Num 1, Num 1], endSlope = [Num 1, Num 7],
         middleYIntercepts = [Num 0, Num 0], endYIntercepts = [Num 0, Num 0] \<rparr>
     = Inr (Some [plainKeyframe [0] 0, plainKeyframe [2] 2],
            \<lparr> middleSlope = [Num 1, Num 1], endSlope = [Num 1, Num 7],
              middleYIntercepts = [Num 0, NaN], endYIntercepts = [Num 0, NaN] \<rparr>)"
  by code_simp

text \<open>The similar-points family flags a pair only when its times are at most
  \<open>timeDifferenceThreshold\<close> apart, the slope family flags a middle point only when they are
  further apart, and \<open>processPoints\<close> gives both the same threshold. With both families
  active, as in the default settings, \<open>processPoints\<close> is therefore never true, and a single
  pass removes every interior point (and the second of two points).\<close>

lemma similar_and_slope_never_both_flag:
  assumes "active (optimizeSimilarPointsSetting settings)"
    "active (optimizeSimilarPointsSlopeSetting settings)"
    "processPoints settings a b c d = Inr (passed, d')"
  shows "\<not> passed"
proof
  assume p: passed
  let ?dT = "differenceThreshold (optimizeSimilarPointsSetting settings)"
  let ?tT = "timeDifferenceThreshold (optimizeSimilarPointsSetting settings)"
  let ?yT = "yInterceptDifferenceThreshold (optimizeSimilarPointsSlopeSetting settings)"
  from assms p obtain k1 where sim: "optimizeSimilarPoints a b c ?dT ?tT = Inr (Some k1)"
    unfolding processPoints_def Let_def
    by (auto split: sum.splits prod.splits if_splits)
  from assms p obtain k2 where slope: "optimizeSimilarPointsSlope a b c ?dT ?tT ?yT d = Inr (Some k2, d')"
    unfolding processPoints_def Let_def
    by (auto split: sum.splits prod.splits if_splits)
  from slope obtain k where c: "c = Some k"
    by (cases c) (simp_all add: optimizeSimilarPointsSlope_def)
  from sim c have "arePointSimilar a b ?dT ?tT = Inr True"
    by (auto simp: optimizeSimilarPoints_def split: if_splits sum.splits bool.splits)
  then have near: "\<bar>time a - time b\<bar> \<le> ?tT"
    by (auto simp: arePointSimilar_def split: sum.splits)
  from slope c obtain res where
    cmp: "ComparePointsSlope a b k d ?tT ?dT ?yT = Inr (res, d')" and "similar res"
    by (auto simp: optimizeSimilarPointsSlope_def split: if_splits sum.splits prod.splits)
  with near show False
    by (auto simp: ComparePointsSlope_def Let_def split: if_splits sum.splits bool.splits)
qed


lemma scan_removes_every_interior_point:
  assumes "active (optimizeSimilarPointsSetting settings)"
    "active (optimizeSimilarPointsSlopeSetting settings)"
    "scan settings i points d = Inr (r, d')"
  shows "r = take i points @ drop (max i (length points - 1)) points"
  using assms
proof (induction settings i points d rule: scan.induct)
  case (1 settings i points d)
  show ?case
  proof (cases "i + 1 < length points")
    case False
    then have "r = points" using "1.prems"(3) by (subst (asm) scan.simps) simp
    moreover have "max i (length points - 1) = i" using False by simp
    ultimately show ?thesis by simp
  next
    case inside: True
    then obtain passed d1 where
      pp: "processPoints settings (points ! (i - 1)) (points ! i) (Some (points ! (i + 1))) d
             = Inr (passed, d1)"
      using "1.prems"(3) by (subst (asm) scan.simps) (auto split: sum.splits)
    have np: "\<not> passed"
      using similar_and_slope_never_both_flag[OF "1.prems"(1,2) pp] .
    have "scan settings i (splice1 i points) d1 = Inr (r, d')"
      using "1.prems"(3) inside pp np by (subst (asm) scan.simps) simp
    from "1.IH"(1)[OF inside pp refl np "1.prems"(1,2) this]
    have r: "r = take i (splice1 i points) @
                 drop (max i (length (splice1 i points) - 1)) (splice1 i points)" .
    have len: "length (splice1 i points) = length points - 1"
      using inside by (simp add: splice1_def)
    have m: "max i (length points - 1 - 1) = length points - 2" using inside by simp
    have t: "take i (splice1 i points) = take i points"
      using inside by (simp add: splice1_def)
    have "Suc (length points - 2) = length points - 1" using inside by arith
    then have dr: "drop (length points - 2) (splice1 i points) = drop (length points - 1) points"
      using inside by (simp add: splice1_def)
    have m2: "max i (length points - 1) = length points - 1" using inside by simp
    have "r = take i points @ drop (length points - 1) points"
      using r unfolding t len m dr .
    then show ?thesis unfolding m2 .
  qed
qed

theorem both_similarity_families_keep_only_endpoints:
  assumes "optimize settings"
    "active (optimizeSimilarPointsSetting settings)"
    "active (optimizeSimilarPointsSlopeSetting settings)"
    "optimizePoints points settings 1 d = Inr (Some r, d')"
  shows "r = (if length points = 2 then [hd (sort_key time points)]
              else [hd (sort_key time points), last (sort_key time points)])"
proof -
  let ?ps = "sort_key time points"
  have len: "2 \<le> length ?ps" and one: "onePass settings ?ps d = Inr (r, d')"
    using assms(1,4)
    by (auto simp: optimizePoints_def Let_def split: if_splits sum.splits prod.splits)
  show ?thesis
  proof (cases "length points = 2")
    case True
    then obtain p q where pq: "?ps = [p, q]"
      by (metis (no_types) length_sort One_nat_def Suc_1 length_0_conv length_Suc_conv)
    obtain passed d1 where
      pp: "processPoints settings p q None d = Inr (passed, d1)"
      using one pq by (auto simp: onePass_def split: sum.splits)
    have np: "\<not> passed" using similar_and_slope_never_both_flag[OF assms(2,3) pp] .
    have "scan settings 1 [p] d1 = Inr (r, d')"
      using one pq pp np by (simp add: onePass_def splice1_def)
    then have "r = [p]" by (subst (asm) scan.simps) simp
    then show ?thesis using True pq by simp
  next
    case False
    with len have three: "3 \<le> length ?ps" by simp
    have "scan settings 1 ?ps d = Inr (r, d')"
      using one False by (simp add: onePass_def)
    from scan_removes_every_interior_point[OF assms(2,3) this]
    moreover have "max 1 (length ?ps - 1) = length ?ps - 1" using three by arith
    ultimately have "r = take 1 ?ps @ drop (length ?ps - 1) ?ps" by simp
    moreover have "take 1 ?ps = [hd ?ps]" using three by (cases ?ps) simp_all
    moreover have "drop (length ?ps - 1) ?ps = [last ?ps]"
      using three
      by (metis (no_types) append_butlast_last_id append_eq_conv_conj length_butlast
          list.size(3) not_numeral_le_zero)
    ultimately show ?thesis using False by simp
  qed
qed


theorem both_similarity_families_keep_only_endpoints_witness:
  "optimizePoints
       [plainKeyframe [0] 0, plainKeyframe [1] 1, plainKeyframe [5] 2, plainKeyframe [2] 3]
       defaultSettings 1 emptyDummy
     = Inr (Some [plainKeyframe [0] 0, plainKeyframe [2] 3],
            \<lparr> middleSlope = [Num (2 / 5)], endSlope = [Num (3 / 2)],
              middleYIntercepts = [Num 0], endYIntercepts = [Num 0] \<rparr>) \<and>
   [plainKeyframe [0] 0, plainKeyframe [2] 3] =
     [hd (sort_key time [plainKeyframe [0] 0, plainKeyframe [1] 1, plainKeyframe [5] 2,
                         plainKeyframe [2] 3]),
      last (sort_key time [plainKeyframe [0] 0, plainKeyframe [1] 1, plainKeyframe [5] 2,
                           plainKeyframe [2] 3])]"
proof -
  have run: "optimizePoints
       [plainKeyframe [0] 0, plainKeyframe [1] 1, plainKeyframe [5] 2, plainKeyframe [2] 3]
       defaultSettings 1 emptyDummy
     = Inr (Some [plainKeyframe [0] 0, plainKeyframe [2] 3],
            \<lparr> middleSlope = [Num (2 / 5)], endSlope = [Num (3 / 2)],
              middleYIntercepts = [Num 0], endYIntercepts = [Num 0] \<rparr>)"
    by code_simp
  have "optimize defaultSettings" "active (optimizeSimilarPointsSetting defaultSettings)"
    "active (optimizeSimilarPointsSlopeSetting defaultSettings)"
    by (simp_all add: defaultSettings_def)
  from both_similarity_families_keep_only_endpoints [OF this run] run
  show ?thesis by simp
qed

text \<open>The scenario of \<open>normalizeLinear\<close>: with step 2 and start 1 the ids 1, 3, 5 become
  1, 2, 3.\<close>

theorem normalizeLinear_scenario:
  "normalizeLinear 2 1 (eventWithID (Many [1, 3, 5])) = Some (eventWithID (Many [1, 2, 3]))"
  by (simp add: normalizeLinear_def solveLightMap_def solve_def finiteQuotient_def
      eventWithID_def promote_def demote_def)

end
